theory Spec2Isabelle
  imports Main "HOL-Library.Sublist"
begin

section \<open>The Result type of src/index.ts\<close>

text \<open>
  \<^verbatim>\<open>Ok(value)\<close> and \<^verbatim>\<open>Err(error)\<close> each return a fresh object literal: nine methods that
  close over the constructor's parameter, and the two boolean properties \<^verbatim>\<open>isOk\<close>
  and \<^verbatim>\<open>isErr\<close>. Objects have identity (\<^verbatim>\<open>return this\<close>), and the callbacks a caller
  passes in are arbitrary JavaScript functions: they may have effects, create further
  Results, or throw. The model therefore makes three things explicit:
  \<^item> a heap of Result objects, addressed by references; a constructor call allocates;
  \<^item> a caller-owned state that only callbacks touch;
  \<^item> abrupt completion: a computation returns \<open>Inl\<close> of an error or \<open>Inr\<close> of a value,
    together with the world it leaves behind.

  TypeScript's type parameters are erased when the program runs, and \<^verbatim>\<open>map\<close>,
  \<^verbatim>\<open>mapErr\<close>, \<^verbatim>\<open>or\<close> and \<^verbatim>\<open>orElse\<close> change them. The model has one type \<open>'t\<close> for every
  value a Success may hold and one type \<open>'e\<close> for every value a Failure may hold; a
  program that maps numbers to strings instantiates \<open>'t\<close> with a sum of both.
\<close>

subsection \<open>Objects, heap and effects\<close>

type_synonym ref = nat

text \<open>
  The nine methods of one object literal share one closure environment: the literal they
  belong to (the one in \<^verbatim>\<open>Ok\<close> or the one in \<^verbatim>\<open>Err\<close>) and the captured parameter.
\<close>

datatype ('t, 'e) closure = OkClosure 't | ErrClosure 'e

record ('t, 'e) result =
  methods :: "('t, 'e) closure"
  isOk :: bool
  isErr :: bool

record ('t, 'e, 's) world =
  heap :: "('t, 'e) result list"
  user :: 's

text \<open>
  \<open>TypeError\<close> is what JavaScript raises for a method call on something that is not an
  object of this module; \<open>Thrown\<close> stands for whatever a callback throws.
\<close>

datatype error = TypeError | Thrown string

type_synonym ('y, 't, 'e, 's) effect =
  "('t, 'e, 's) world \<Rightarrow> (error + 'y) \<times> ('t, 'e, 's) world"

definition returns :: "'y \<Rightarrow> ('y, 't, 'e, 's) effect" where
  "returns y w = (Inr y, w)"

definition then_do ::
  "('x, 't, 'e, 's) effect \<Rightarrow> ('x \<Rightarrow> ('y, 't, 'e, 's) effect) \<Rightarrow> ('y, 't, 'e, 's) effect" where
  "then_do m k w = (case m w of (Inl x, w') \<Rightarrow> (Inl x, w') | (Inr y, w') \<Rightarrow> k y w')"

definition lookup :: "('t, 'e, 's) world \<Rightarrow> ref \<Rightarrow> ('t, 'e) result option" where
  "lookup w r = (if r < length (heap w) then Some (heap w ! r) else None)"

text \<open>An object literal evaluates to a new object, at an address not in use.\<close>

definition alloc :: "('t, 'e) result \<Rightarrow> (ref, 't, 'e, 's) effect" where
  "alloc obj w = (Inr (length (heap w)), w\<lparr>heap := heap w @ [obj]\<rparr>)"

subsection \<open>The two constructors\<close>

text \<open>
  \<^verbatim>\<open>export function Ok<T>(value: T): Result<T, any> { return { ..., isOk: true, isErr: false } }\<close>
  \<^verbatim>\<open>export function Err<E>(error: E): Result<any, E> { return { ..., isOk: false, isErr: true } }\<close>
\<close>

definition Ok :: "'t \<Rightarrow> (ref, 't, 'e, 's) effect" where
  "Ok value = alloc \<lparr>methods = OkClosure value, isOk = True, isErr = False\<rparr>"

definition Err :: "'e \<Rightarrow> (ref, 't, 'e, 's) effect" where
  "Err error = alloc \<lparr>methods = ErrClosure error, isOk = False, isErr = True\<rparr>"

subsection \<open>The methods of the object literal in \<^verbatim>\<open>Ok\<close>\<close>

text \<open>
  Each method takes its receiver \<open>this\<close>, the captured \<open>value\<close> and its arguments, in
  the order of the source (lines 98 to 124).
\<close>

fun Ok_match ::
  "ref \<Rightarrow> 't \<Rightarrow> ('t \<Rightarrow> ('u, 't, 'e, 's) effect) \<Rightarrow> ('e \<Rightarrow> ('u, 't, 'e, 's) effect)
    \<Rightarrow> ('u, 't, 'e, 's) effect" where
  "Ok_match this value ok _ = ok value"

fun Ok_getValueOrDefault :: "ref \<Rightarrow> 't \<Rightarrow> 't \<Rightarrow> ('t, 't, 'e, 's) effect" where
  "Ok_getValueOrDefault this value _ = returns value"

fun Ok_getValueOrCompute ::
  "ref \<Rightarrow> 't \<Rightarrow> ('e \<Rightarrow> ('t, 't, 'e, 's) effect) \<Rightarrow> ('t, 't, 'e, 's) effect" where
  "Ok_getValueOrCompute this value _ = returns value"

fun Ok_map :: "ref \<Rightarrow> 't \<Rightarrow> ('t \<Rightarrow> ('t, 't, 'e, 's) effect) \<Rightarrow> (ref, 't, 'e, 's) effect" where
  "Ok_map this value fn = then_do (fn value) Ok"

fun Ok_mapErr :: "ref \<Rightarrow> 't \<Rightarrow> ('e \<Rightarrow> ('e, 't, 'e, 's) effect) \<Rightarrow> (ref, 't, 'e, 's) effect" where
  "Ok_mapErr this value _ = returns this"

fun Ok_and :: "ref \<Rightarrow> 't \<Rightarrow> ref \<Rightarrow> (ref, 't, 'e, 's) effect" where
  "Ok_and this value result = returns result"

fun Ok_andThen ::
  "ref \<Rightarrow> 't \<Rightarrow> ('t \<Rightarrow> (ref, 't, 'e, 's) effect) \<Rightarrow> (ref, 't, 'e, 's) effect" where
  "Ok_andThen this value fn = fn value"

fun Ok_or :: "ref \<Rightarrow> 't \<Rightarrow> ref \<Rightarrow> (ref, 't, 'e, 's) effect" where
  "Ok_or this value _ = returns this"

fun Ok_orElse ::
  "ref \<Rightarrow> 't \<Rightarrow> ('e \<Rightarrow> (ref, 't, 'e, 's) effect) \<Rightarrow> (ref, 't, 'e, 's) effect" where
  "Ok_orElse this value _ = returns this"

subsection \<open>The methods of the object literal in \<^verbatim>\<open>Err\<close>\<close>

text \<open>Lines 132 to 158, with the captured \<open>error\<close>.\<close>

fun Err_match ::
  "ref \<Rightarrow> 'e \<Rightarrow> ('t \<Rightarrow> ('u, 't, 'e, 's) effect) \<Rightarrow> ('e \<Rightarrow> ('u, 't, 'e, 's) effect)
    \<Rightarrow> ('u, 't, 'e, 's) effect" where
  "Err_match this error _ err = err error"

fun Err_getValueOrDefault :: "ref \<Rightarrow> 'e \<Rightarrow> 't \<Rightarrow> ('t, 't, 'e, 's) effect" where
  "Err_getValueOrDefault this error defaultValue = returns defaultValue"

fun Err_getValueOrCompute ::
  "ref \<Rightarrow> 'e \<Rightarrow> ('e \<Rightarrow> ('t, 't, 'e, 's) effect) \<Rightarrow> ('t, 't, 'e, 's) effect" where
  "Err_getValueOrCompute this error computeFn = computeFn error"

fun Err_map :: "ref \<Rightarrow> 'e \<Rightarrow> ('t \<Rightarrow> ('t, 't, 'e, 's) effect) \<Rightarrow> (ref, 't, 'e, 's) effect" where
  "Err_map this error _ = returns this"

fun Err_mapErr :: "ref \<Rightarrow> 'e \<Rightarrow> ('e \<Rightarrow> ('e, 't, 'e, 's) effect) \<Rightarrow> (ref, 't, 'e, 's) effect" where
  "Err_mapErr this error fn = then_do (fn error) Err"

fun Err_and :: "ref \<Rightarrow> 'e \<Rightarrow> ref \<Rightarrow> (ref, 't, 'e, 's) effect" where
  "Err_and this error _ = returns this"

fun Err_andThen ::
  "ref \<Rightarrow> 'e \<Rightarrow> ('t \<Rightarrow> (ref, 't, 'e, 's) effect) \<Rightarrow> (ref, 't, 'e, 's) effect" where
  "Err_andThen this error _ = returns this"

fun Err_or :: "ref \<Rightarrow> 'e \<Rightarrow> ref \<Rightarrow> (ref, 't, 'e, 's) effect" where
  "Err_or this error result = returns result"

fun Err_orElse ::
  "ref \<Rightarrow> 'e \<Rightarrow> ('e \<Rightarrow> (ref, 't, 'e, 's) effect) \<Rightarrow> (ref, 't, 'e, 's) effect" where
  "Err_orElse this error fn = fn error"

subsection \<open>Method calls and property reads\<close>

text \<open>
  The call \<^verbatim>\<open>r.m(args)\<close> looks the method up in the object \<open>r\<close> refers to and runs it
  with \<open>this = r\<close>. Calling a method on something that is not a Result object is
  JavaScript's TypeError.
\<close>

definition method_call ::
  "ref \<Rightarrow> (ref \<Rightarrow> 't \<Rightarrow> ('y, 't, 'e, 's) effect) \<Rightarrow> (ref \<Rightarrow> 'e \<Rightarrow> ('y, 't, 'e, 's) effect)
    \<Rightarrow> ('y, 't, 'e, 's) effect" where
  "method_call r of_Ok of_Err w =
     (case lookup w r of
        None \<Rightarrow> (Inl TypeError, w)
      | Some obj \<Rightarrow>
          (case methods obj of
             OkClosure value \<Rightarrow> of_Ok r value w
           | ErrClosure error \<Rightarrow> of_Err r error w))"

definition call_match ::
  "ref \<Rightarrow> ('t \<Rightarrow> ('u, 't, 'e, 's) effect) \<Rightarrow> ('e \<Rightarrow> ('u, 't, 'e, 's) effect)
    \<Rightarrow> ('u, 't, 'e, 's) effect" where
  "call_match r ok err =
     method_call r (\<lambda>this value. Ok_match this value ok err)
                   (\<lambda>this error. Err_match this error ok err)"

definition call_getValueOrDefault :: "ref \<Rightarrow> 't \<Rightarrow> ('t, 't, 'e, 's) effect" where
  "call_getValueOrDefault r defaultValue =
     method_call r (\<lambda>this value. Ok_getValueOrDefault this value defaultValue)
                   (\<lambda>this error. Err_getValueOrDefault this error defaultValue)"

definition call_getValueOrCompute ::
  "ref \<Rightarrow> ('e \<Rightarrow> ('t, 't, 'e, 's) effect) \<Rightarrow> ('t, 't, 'e, 's) effect" where
  "call_getValueOrCompute r computeFn =
     method_call r (\<lambda>this value. Ok_getValueOrCompute this value computeFn)
                   (\<lambda>this error. Err_getValueOrCompute this error computeFn)"

definition call_map :: "ref \<Rightarrow> ('t \<Rightarrow> ('t, 't, 'e, 's) effect) \<Rightarrow> (ref, 't, 'e, 's) effect" where
  "call_map r fn =
     method_call r (\<lambda>this value. Ok_map this value fn) (\<lambda>this error. Err_map this error fn)"

definition call_mapErr :: "ref \<Rightarrow> ('e \<Rightarrow> ('e, 't, 'e, 's) effect) \<Rightarrow> (ref, 't, 'e, 's) effect" where
  "call_mapErr r fn =
     method_call r (\<lambda>this value. Ok_mapErr this value fn) (\<lambda>this error. Err_mapErr this error fn)"

definition call_and :: "ref \<Rightarrow> ref \<Rightarrow> (ref, 't, 'e, 's) effect" where
  "call_and r result =
     method_call r (\<lambda>this value. Ok_and this value result) (\<lambda>this error. Err_and this error result)"

definition call_andThen :: "ref \<Rightarrow> ('t \<Rightarrow> (ref, 't, 'e, 's) effect) \<Rightarrow> (ref, 't, 'e, 's) effect" where
  "call_andThen r fn =
     method_call r (\<lambda>this value. Ok_andThen this value fn) (\<lambda>this error. Err_andThen this error fn)"

definition call_or :: "ref \<Rightarrow> ref \<Rightarrow> (ref, 't, 'e, 's) effect" where
  "call_or r result =
     method_call r (\<lambda>this value. Ok_or this value result) (\<lambda>this error. Err_or this error result)"

definition call_orElse :: "ref \<Rightarrow> ('e \<Rightarrow> (ref, 't, 'e, 's) effect) \<Rightarrow> (ref, 't, 'e, 's) effect" where
  "call_orElse r fn =
     method_call r (\<lambda>this value. Ok_orElse this value fn) (\<lambda>this error. Err_orElse this error fn)"

text \<open>The reads \<^verbatim>\<open>r.isOk\<close> and \<^verbatim>\<open>r.isErr\<close>: they return the stored property.\<close>

definition read_isOk :: "ref \<Rightarrow> (bool, 't, 'e, 's) effect" where
  "read_isOk r w = (case lookup w r of None \<Rightarrow> (Inl TypeError, w) | Some obj \<Rightarrow> (Inr (isOk obj), w))"

definition read_isErr :: "ref \<Rightarrow> (bool, 't, 'e, 's) effect" where
  "read_isErr r w = (case lookup w r of None \<Rightarrow> (Inl TypeError, w) | Some obj \<Rightarrow> (Inr (isErr obj), w))"

subsection \<open>Observing a Result, and counting callback invocations\<close>

text \<open>
  What a caller can learn about the Result \<open>r\<close>: the payload \<^verbatim>\<open>match\<close> hands to its
  first or to its second callback, and the two flags. Two Results are observationally
  equal when these agree.
\<close>

definition observe ::
  "ref \<Rightarrow> ('t, 'e, 's) world \<Rightarrow> (error + 't + 'e) \<times> (error + bool) \<times> (error + bool)" where
  "observe r w =
     (fst (call_match r (\<lambda>value. returns (Inl value)) (\<lambda>error. returns (Inr error)) w),
      fst (read_isOk r w),
      fst (read_isErr r w))"

text \<open>
  The observation of the Result an expression evaluates to (or the error it throws),
  taken in the world the expression leaves behind.
\<close>

definition outcome ::
  "(ref, 't, 'e, 's) effect \<Rightarrow> ('t, 'e, 's) world
    \<Rightarrow> error + (error + 't + 'e) \<times> (error + bool) \<times> (error + bool)" where
  "outcome m w = (case m w of (Inl x, w') \<Rightarrow> Inl x | (Inr r, w') \<Rightarrow> Inr (observe r w'))"

text \<open>
  A callback \<open>f\<close> over a caller state \<open>'s\<close> is run as \<open>traced k f\<close> over the state
  \<open>nat list \<times> 's\<close>: every invocation appends the label \<open>k\<close> to the list, which \<open>f\<close>
  itself cannot see or change. The list is the sequence of callback invocations.
\<close>

definition forget :: "('t, 'e, nat list \<times> 's) world \<Rightarrow> ('t, 'e, 's) world" where
  "forget w = \<lparr>heap = heap w, user = snd (user w)\<rparr>"

definition traced ::
  "nat \<Rightarrow> ('x \<Rightarrow> ('y, 't, 'e, 's) effect) \<Rightarrow> 'x \<Rightarrow> ('y, 't, 'e, nat list \<times> 's) effect" where
  "traced k f x w =
     (case f x (forget w) of
        (y, w') \<Rightarrow> (y, \<lparr>heap = heap w', user = (fst (user w) @ [k], user w')\<rparr>))"

definition calls :: "('t, 'e, nat list \<times> 's) world \<Rightarrow> nat list" where
  "calls w = fst (user w)"

subsection \<open>Heaps built through the constructors, and callbacks that respect them\<close>

text \<open>
  An object is constructed when it is the literal one of the two constructors returns
  for the parameter its methods captured. A heap is well formed when every object in it
  is constructed: the Results a program can construct.
\<close>

definition constructed :: "('t, 'e) result \<Rightarrow> bool" where
  "constructed obj =
     (case methods obj of
        OkClosure value \<Rightarrow> obj = \<lparr>methods = OkClosure value, isOk = True, isErr = False\<rparr>
      | ErrClosure error \<Rightarrow> obj = \<lparr>methods = ErrClosure error, isOk = False, isErr = True\<rparr>)"

definition well_formed :: "('t, 'e, 's) world \<Rightarrow> bool" where
  "well_formed w = list_all constructed (heap w)"

text \<open>
  The source has no statement that assigns to a property of a Result, and the payload is
  a closure variable: code outside this module can create Results and keep its own
  state, nothing else. \<open>grows w w'\<close> says that \<open>w'\<close> has every object of \<open>w\<close>, at the
  same address and unchanged; a callback that \<open>only_allocates\<close> leaves every world so.
\<close>

definition grows :: "('t, 'e, 's) world \<Rightarrow> ('t, 'e, 's) world \<Rightarrow> bool" where
  "grows w w' = prefix (heap w) (heap w')"

definition only_allocates :: "('x \<Rightarrow> ('y, 't, 'e, 's) effect) \<Rightarrow> bool" where
  "only_allocates f = (\<forall>x w. grows w (snd (f x w)))"

text \<open>
  A relation between a world and a later one that every step outside a callback keeps:
  it is reflexive and transitive, and holds across a call of either constructor. A
  callback \<open>keeps\<close> it when it holds across every run of the callback.
\<close>

definition step_closed :: "(('t, 'e, 's) world \<Rightarrow> ('t, 'e, 's) world \<Rightarrow> bool) \<Rightarrow> bool" where
  "step_closed R =
     ((\<forall>w. R w w) \<and> (\<forall>a b c. R a b \<and> R b c \<longrightarrow> R a c) \<and>
      (\<forall>v w. R w (snd (Ok v w))) \<and> (\<forall>e w. R w (snd (Err e w))))"

definition keeps ::
  "(('t, 'e, 's) world \<Rightarrow> ('t, 'e, 's) world \<Rightarrow> bool) \<Rightarrow> ('x \<Rightarrow> ('y, 't, 'e, 's) effect) \<Rightarrow> bool" where
  "keeps R f = (\<forall>x w. R w (snd (f x w)))"

definition constructs_only :: "('x \<Rightarrow> ('y, 't, 'e, 's) effect) \<Rightarrow> bool" where
  "constructs_only f = (\<forall>x w. well_formed w \<longrightarrow> well_formed (snd (f x w)))"

text \<open>
  \<open>Success_at w r v\<close>: in the world \<open>w\<close> the reference \<open>r\<close> is a Result that \<^verbatim>\<open>Ok(v)\<close>
  returned, at whatever time; \<open>Failure_at w r e\<close>: one that \<^verbatim>\<open>Err(e)\<close> returned.
\<close>

definition Success_at :: "('t, 'e, 's) world \<Rightarrow> ref \<Rightarrow> 't \<Rightarrow> bool" where
  "Success_at w r v = (lookup w r = Some \<lparr>methods = OkClosure v, isOk = True, isErr = False\<rparr>)"

definition Failure_at :: "('t, 'e, 's) world \<Rightarrow> ref \<Rightarrow> 'e \<Rightarrow> bool" where
  "Failure_at w r e = (lookup w r = Some \<lparr>methods = ErrClosure e, isOk = False, isErr = True\<rparr>)"

definition empty_world :: "'s \<Rightarrow> ('t, 'e, 's) world" where
  "empty_world s = \<lparr>heap = [], user = s\<rparr>"

section \<open>Basic facts\<close>

lemma Ok_eq: "Ok v w = (Inr (length (heap w)), snd (Ok v w))"
  by (simp add: Ok_def alloc_def)

lemma Err_eq: "Err e w = (Inr (length (heap w)), snd (Err e w))"
  by (simp add: Err_def alloc_def)

lemma then_do_Ok: "then_do (Ok v) k w = k (length (heap w)) (snd (Ok v w))"
  by (simp add: Ok_def then_do_def alloc_def)

lemma then_do_Err: "then_do (Err e) k w = k (length (heap w)) (snd (Err e w))"
  by (simp add: Err_def then_do_def alloc_def)

lemma lookup_Ok:
  "lookup (snd (Ok v w)) (length (heap w)) =
     Some \<lparr>methods = OkClosure v, isOk = True, isErr = False\<rparr>"
  by (simp add: Ok_def alloc_def lookup_def)

lemma lookup_Err:
  "lookup (snd (Err e w)) (length (heap w)) =
     Some \<lparr>methods = ErrClosure e, isOk = False, isErr = True\<rparr>"
  by (simp add: Err_def alloc_def lookup_def)

lemma method_call_Ok:
  "lookup w r = Some obj \<Longrightarrow> methods obj = OkClosure v \<Longrightarrow> method_call r a b w = a r v w"
  by (simp add: method_call_def)

lemma method_call_Err:
  "lookup w r = Some obj \<Longrightarrow> methods obj = ErrClosure e \<Longrightarrow> method_call r a b w = b r e w"
  by (simp add: method_call_def)

lemma method_call_TypeError: "lookup w r = None \<Longrightarrow> method_call r a b w = (Inl TypeError, w)"
  by (simp add: method_call_def)

text \<open>A method call on a Result fresh from its constructor runs that literal's method.\<close>

lemma Ok_then_call:
  "then_do (Ok v) (\<lambda>r. method_call r a b) w = a (length (heap w)) v (snd (Ok v w))"
  by (simp add: then_do_Ok method_call_def lookup_Ok)

lemma Err_then_call:
  "then_do (Err e) (\<lambda>r. method_call r a b) w = b (length (heap w)) e (snd (Err e w))"
  by (simp add: then_do_Err method_call_def lookup_Err)

lemma returns_this_Ok: "returns (length (heap w)) (snd (Ok v w)) = Ok v w"
  by (simp add: returns_def Ok_def alloc_def)

lemma returns_this_Err: "returns (length (heap w)) (snd (Err e w)) = Err e w"
  by (simp add: returns_def Err_def alloc_def)

subsection \<open>Observations\<close>

lemma observe_lookup:
  "observe r w =
     (case lookup w r of
        None \<Rightarrow> (Inl TypeError, Inl TypeError, Inl TypeError)
      | Some obj \<Rightarrow>
          (Inr (case methods obj of OkClosure v \<Rightarrow> Inl v | ErrClosure e \<Rightarrow> Inr e),
           Inr (isOk obj), Inr (isErr obj)))"
  by (simp add: observe_def call_match_def method_call_def read_isOk_def read_isErr_def
      returns_def split: option.split closure.split)

lemma outcome_eq: "m w = (Inr r, w1) \<Longrightarrow> outcome m w = Inr (observe r w1)"
  by (simp add: outcome_def)

lemma outcome_cong: "m w = m' w \<Longrightarrow> outcome m w = outcome m' w"
  by (simp add: outcome_def)

lemma outcome_Ok: "outcome (Ok v) w = Inr (Inr (Inl v), Inr True, Inr False)"
  using outcome_eq [OF Ok_eq] by (simp add: observe_lookup lookup_Ok)

lemma outcome_Err: "outcome (Err e) w = Inr (Inr (Inr e), Inr False, Inr True)"
  using outcome_eq [OF Err_eq] by (simp add: observe_lookup lookup_Err)




subsection \<open>The sequence of callback invocations\<close>


lemma calls_Ok: "calls (snd (Ok v w)) = calls w"
  by (simp add: Ok_def alloc_def calls_def)

lemma calls_Err: "calls (snd (Err e w)) = calls w"
  by (simp add: Err_def alloc_def calls_def)

subsection \<open>Each method, called on a Result fresh from its constructor\<close>

lemma match_fresh:
  "then_do (Ok v) (\<lambda>r. call_match r f g) w = f v (snd (Ok v w))"
  "then_do (Err e) (\<lambda>r. call_match r f g) w = g e (snd (Err e w))"
  by (simp_all add: call_match_def Ok_then_call Err_then_call)

lemma getValueOrDefault_fresh:
  "then_do (Ok v) (\<lambda>r. call_getValueOrDefault r d) w = returns v (snd (Ok v w))"
  "then_do (Err e) (\<lambda>r. call_getValueOrDefault r d) w = returns d (snd (Err e w))"
  by (simp_all add: call_getValueOrDefault_def Ok_then_call Err_then_call)

lemma getValueOrCompute_fresh:
  "then_do (Ok v) (\<lambda>r. call_getValueOrCompute r c) w = returns v (snd (Ok v w))"
  "then_do (Err e) (\<lambda>r. call_getValueOrCompute r c) w = c e (snd (Err e w))"
  by (simp_all add: call_getValueOrCompute_def Ok_then_call Err_then_call)



lemma and_fresh:
  "then_do (Ok v) (\<lambda>r. call_and r q) w = returns q (snd (Ok v w))"
  "then_do (Err e) (\<lambda>r. call_and r q) w = Err e w"
  by (simp_all add: call_and_def Ok_then_call Err_then_call returns_this_Err)

lemma andThen_fresh:
  "then_do (Ok v) (\<lambda>r. call_andThen r f) w = f v (snd (Ok v w))"
  "then_do (Err e) (\<lambda>r. call_andThen r f) w = Err e w"
  by (simp_all add: call_andThen_def Ok_then_call Err_then_call returns_this_Err)

lemma or_fresh:
  "then_do (Ok v) (\<lambda>r. call_or r q) w = Ok v w"
  "then_do (Err e) (\<lambda>r. call_or r q) w = returns q (snd (Err e w))"
  by (simp_all add: call_or_def Ok_then_call Err_then_call returns_this_Ok)

lemma orElse_fresh:
  "then_do (Ok v) (\<lambda>r. call_orElse r f) w = Ok v w"
  "then_do (Err e) (\<lambda>r. call_orElse r f) w = f e (snd (Err e w))"
  by (simp_all add: call_orElse_def Ok_then_call Err_then_call returns_this_Ok)

subsection \<open>Each method, called on any Success and on any Failure of the heap\<close>

lemma calls_on_Ok:
  assumes "lookup w r = Some obj" and "methods obj = OkClosure v"
  shows "call_match r f g w = f v w"
    and "call_getValueOrDefault r d w = (Inr v, w)"
    and "call_getValueOrCompute r c w = (Inr v, w)"
    and "call_map r m w = then_do (m v) Ok w"
    and "call_mapErr r h w = (Inr r, w)"
    and "call_and r q w = (Inr q, w)"
    and "call_andThen r k w = k v w"
    and "call_or r q w = (Inr r, w)"
    and "call_orElse r j w = (Inr r, w)"
  by (simp_all add: call_match_def call_getValueOrDefault_def call_getValueOrCompute_def
      call_map_def call_mapErr_def call_and_def call_andThen_def call_or_def call_orElse_def
      method_call_Ok [OF assms] returns_def)

lemma calls_on_Err:
  assumes "lookup w r = Some obj" and "methods obj = ErrClosure e"
  shows "call_match r f g w = g e w"
    and "call_getValueOrDefault r d w = (Inr d, w)"
    and "call_getValueOrCompute r c w = c e w"
    and "call_map r m w = (Inr r, w)"
    and "call_mapErr r h w = then_do (h e) Err w"
    and "call_and r q w = (Inr r, w)"
    and "call_andThen r k w = (Inr r, w)"
    and "call_or r q w = (Inr q, w)"
    and "call_orElse r j w = j e w"
  by (simp_all add: call_match_def call_getValueOrDefault_def call_getValueOrCompute_def
      call_map_def call_mapErr_def call_and_def call_andThen_def call_or_def call_orElse_def
      method_call_Err [OF assms] returns_def)

subsection \<open>A receiver that exists while its argument is evaluated\<close>

text \<open>
  In \<^verbatim>\<open>r.and(expr)\<close> the receiver is evaluated first, then the argument, then the call
  is made. The argument may create Results, the one it evaluates to among them; the
  receiver is still the Result it was.
\<close>

lemma lookup_grows: "grows w w' \<Longrightarrow> q < length (heap w) \<Longrightarrow> lookup w' q = lookup w q"
  by (auto simp: grows_def lookup_def prefix_def nth_append)

text \<open>Code that computes a value, or calls a constructor, only allocates.\<close>

lemma only_allocates_returns: "only_allocates (\<lambda>x. returns (g x))"
  by (simp add: only_allocates_def returns_def grows_def)

lemma only_allocates_Ok: "only_allocates (\<lambda>x. Ok (g x))"
  by (simp add: only_allocates_def grows_def Ok_def alloc_def)

lemma only_allocates_Err: "only_allocates (\<lambda>x. Err (g x))"
  by (simp add: only_allocates_def grows_def Err_def alloc_def)

lemma lookup_Some_valid: "lookup w r = Some obj \<Longrightarrow> r < length (heap w)"
  by (simp add: lookup_def split: if_splits)

lemma Success_at_fresh: "Success_at (snd (Ok v w)) (length (heap w)) v"
  by (simp add: Success_at_def lookup_Ok)

lemma Failure_at_fresh: "Failure_at (snd (Err e w)) (length (heap w)) e"
  by (simp add: Failure_at_def lookup_Err)

lemma Success_at_grows: "grows w w' \<Longrightarrow> Success_at w r v \<Longrightarrow> Success_at w' r v"
  unfolding Success_at_def by (simp add: lookup_grows lookup_Some_valid)

lemma Failure_at_grows: "grows w w' \<Longrightarrow> Failure_at w r e \<Longrightarrow> Failure_at w' r e"
  unfolding Failure_at_def by (simp add: lookup_grows lookup_Some_valid)

lemma observe_Success: "Success_at w r v \<Longrightarrow> observe r w = (Inr (Inl v), Inr True, Inr False)"
  by (simp add: Success_at_def observe_lookup)

lemma observe_Failure: "Failure_at w r e \<Longrightarrow> observe r w = (Inr (Inr e), Inr False, Inr True)"
  by (simp add: Failure_at_def observe_lookup)

lemma chain_on_Success:
  assumes "Success_at w r v"
  shows "call_and r q w = (Inr q, w)"
    and "call_andThen r k w = k v w"
    and "call_or r q w = (Inr r, w)"
    and "call_orElse r j w = (Inr r, w)"
proof -
  from assms have "lookup w r = Some \<lparr>methods = OkClosure v, isOk = True, isErr = False\<rparr>"
    by (simp add: Success_at_def)
  then show "call_and r q w = (Inr q, w)"
    and "call_andThen r k w = k v w"
    and "call_or r q w = (Inr r, w)"
    and "call_orElse r j w = (Inr r, w)"
    by (simp_all add: calls_on_Ok)
qed

lemma chain_on_Failure:
  assumes "Failure_at w r e"
  shows "call_and r q w = (Inr r, w)"
    and "call_andThen r k w = (Inr r, w)"
    and "call_or r q w = (Inr q, w)"
    and "call_orElse r j w = j e w"
proof -
  from assms have "lookup w r = Some \<lparr>methods = ErrClosure e, isOk = False, isErr = True\<rparr>"
    by (simp add: Failure_at_def)
  then show "call_and r q w = (Inr r, w)"
    and "call_andThen r k w = (Inr r, w)"
    and "call_or r q w = (Inr q, w)"
    and "call_orElse r j w = j e w"
    by (simp_all add: calls_on_Err)
qed

lemma then_do_after:
  assumes "\<And>y w1. m w = (Inr y, w1) \<Longrightarrow> k y w1 = k' y w1"
  shows "then_do m k w = then_do m k' w"
proof (cases "m w")
  case (Pair res w1)
  with assms show ?thesis
    by (cases res) (simp_all add: then_do_def)
qed

lemma then_do_returns_right: "then_do m returns w = m w"
proof (cases "m w")
  case (Pair res w1)
  then show ?thesis
    by (cases res) (simp_all add: then_do_def returns_def)
qed

lemma after_argument_Success:
  assumes arg: "only_allocates arg" and r: "Success_at w r v"
  shows "then_do (arg r) (call_and r) w = arg r w"
    and "then_do (arg r) (\<lambda>y. call_andThen r (k y)) w = then_do (arg r) (\<lambda>y. k y v) w"
    and "then_do (arg r) (call_or r) w = then_do (arg r) (\<lambda>y. returns r) w"
    and "then_do (arg r) (\<lambda>y. call_orElse r (j y)) w = then_do (arg r) (\<lambda>y. returns r) w"
proof -
  have still: "Success_at w1 r v" if "arg r w = (Inr y, w1)" for y w1
  proof -
    from arg have "grows w (snd (arg r w))"
      by (simp add: only_allocates_def)
    with that have "grows w w1"
      by simp
    then show ?thesis
      using r by (rule Success_at_grows)
  qed
  have "then_do (arg r) (call_and r) w = then_do (arg r) returns w"
    by (rule then_do_after) (simp add: chain_on_Success [OF still] returns_def)
  then show "then_do (arg r) (call_and r) w = arg r w"
    by (simp add: then_do_returns_right)
  show "then_do (arg r) (\<lambda>y. call_andThen r (k y)) w = then_do (arg r) (\<lambda>y. k y v) w"
    by (rule then_do_after) (simp add: chain_on_Success [OF still])
  show "then_do (arg r) (call_or r) w = then_do (arg r) (\<lambda>y. returns r) w"
    by (rule then_do_after) (simp add: chain_on_Success [OF still] returns_def)
  show "then_do (arg r) (\<lambda>y. call_orElse r (j y)) w = then_do (arg r) (\<lambda>y. returns r) w"
    by (rule then_do_after) (simp add: chain_on_Success [OF still] returns_def)
qed

lemma after_argument_Failure:
  assumes arg: "only_allocates arg" and r: "Failure_at w r e"
  shows "then_do (arg r) (call_and r) w = then_do (arg r) (\<lambda>y. returns r) w"
    and "then_do (arg r) (\<lambda>y. call_andThen r (k y)) w = then_do (arg r) (\<lambda>y. returns r) w"
    and "then_do (arg r) (call_or r) w = arg r w"
    and "then_do (arg r) (\<lambda>y. call_orElse r (j y)) w = then_do (arg r) (\<lambda>y. j y e) w"
    and "outcome (then_do (arg r) (\<lambda>y. returns r)) w =
          (case arg r w of
             (Inl x, w1) \<Rightarrow> Inl x
           | (Inr y, w1) \<Rightarrow> Inr (Inr (Inr e), Inr False, Inr True))"
proof -
  have still: "Failure_at w1 r e" if "arg r w = (Inr y, w1)" for y w1
  proof -
    from arg have "grows w (snd (arg r w))"
      by (simp add: only_allocates_def)
    with that have "grows w w1"
      by simp
    then show ?thesis
      using r by (rule Failure_at_grows)
  qed
  show "then_do (arg r) (call_and r) w = then_do (arg r) (\<lambda>y. returns r) w"
    by (rule then_do_after) (simp add: chain_on_Failure [OF still] returns_def)
  show "then_do (arg r) (\<lambda>y. call_andThen r (k y)) w = then_do (arg r) (\<lambda>y. returns r) w"
    by (rule then_do_after) (simp add: chain_on_Failure [OF still] returns_def)
  have "then_do (arg r) (call_or r) w = then_do (arg r) returns w"
    by (rule then_do_after) (simp add: chain_on_Failure [OF still] returns_def)
  then show "then_do (arg r) (call_or r) w = arg r w"
    by (simp add: then_do_returns_right)
  show "then_do (arg r) (\<lambda>y. call_orElse r (j y)) w = then_do (arg r) (\<lambda>y. j y e) w"
    by (rule then_do_after) (simp add: chain_on_Failure [OF still])
  show "outcome (then_do (arg r) (\<lambda>y. returns r)) w =
          (case arg r w of
             (Inl x, w1) \<Rightarrow> Inl x
           | (Inr y, w1) \<Rightarrow> Inr (Inr (Inr e), Inr False, Inr True))"
  proof (cases "arg r w")
    case (Pair res w1)
    show ?thesis
    proof (cases res)
      case (Inl x)
      with Pair show ?thesis
        by (simp add: outcome_def then_do_def)
    next
      case (Inr y)
      with Pair have "Failure_at w1 r e"
        by (simp add: still)
      with Pair Inr show ?thesis
        by (simp add: outcome_def then_do_def returns_def observe_Failure)
    qed
  qed
qed

lemma outcome_after_argument_Success:
  assumes arg: "only_allocates arg" and r: "Success_at w r v"
  shows "outcome (then_do (arg r) (\<lambda>y. returns r)) w =
          (case arg r w of
             (Inl x, w1) \<Rightarrow> Inl x
           | (Inr y, w1) \<Rightarrow> Inr (Inr (Inl v), Inr True, Inr False))"
proof (cases "arg r w")
  case (Pair res w1)
  show ?thesis
  proof (cases res)
    case (Inl x)
    with Pair show ?thesis
      by (simp add: outcome_def then_do_def)
  next
    case (Inr y)
    from arg have "grows w (snd (arg r w))"
      by (simp add: only_allocates_def)
    with Pair have "grows w w1"
      by simp
    then have "Success_at w1 r v"
      using r by (rule Success_at_grows)
    with Pair Inr show ?thesis
      by (simp add: outcome_def then_do_def returns_def observe_Success)
  qed
qed

section \<open>Dispatch by \<^verbatim>\<open>match\<close>\<close>


section \<open>Extraction: \<^verbatim>\<open>getValueOrDefault\<close> and \<^verbatim>\<open>getValueOrCompute\<close>\<close>



section \<open>Transformation: \<^verbatim>\<open>map\<close> and \<^verbatim>\<open>mapErr\<close>\<close>


section \<open>Chaining: \<^verbatim>\<open>and\<close>, \<^verbatim>\<open>andThen\<close>, \<^verbatim>\<open>or\<close>, \<^verbatim>\<open>orElse\<close>\<close>

text \<open>
  C3. For every value \<open>v\<close>, error \<open>e\<close>, Result \<open>q\<close> and Result-returning function \<open>f\<close>:
  \<^verbatim>\<open>Ok(v).and(q)\<close> returns \<open>q\<close> and \<^verbatim>\<open>Ok(v).andThen(f)\<close> is the call \<open>f(v)\<close>;
  \<^verbatim>\<open>Err(e).and(q)\<close> and \<^verbatim>\<open>Err(e).andThen(f)\<close> are the instance \<^verbatim>\<open>Err(e)\<close> itself, a Failure
  holding \<open>e\<close>, and on that path \<open>f\<close> is never invoked. This holds
  \<^item> when the call is made right after the receiver's constructor, with \<open>q\<close> and \<open>f\<close>
    at hand already;
  \<^item> for a receiver \<open>s\<close> or \<open>t\<close> of any world, whatever was created before or after it;
  \<^item> for \<^verbatim>\<open>Ok(v).and(expr)\<close> and \<^verbatim>\<open>Err(e).and(expr)\<close> where the argument is evaluated
    after the receiver and may create the Result it evaluates to, as in
    \<^verbatim>\<open>Ok(1).and(Ok(2))\<close>, and likewise for a callback built then.
\<close>

theorem and_andThen_short_circuit:
  "then_do (Ok v) (\<lambda>r. call_and r q) w = (Inr q, snd (Ok v w)) \<and>
   then_do (Ok v) (\<lambda>r. call_andThen r f) w = f v (snd (Ok v w)) \<and>
   then_do (Err e) (\<lambda>r. call_and r q) w = Err e w \<and>
   then_do (Err e) (\<lambda>r. call_andThen r f) w = Err e w \<and>
   outcome (then_do (Err e) (\<lambda>r. call_and r q)) w = outcome (Err e) w \<and>
   outcome (then_do (Err e) (\<lambda>r. call_andThen r f)) w = outcome (Err e) w \<and>
   outcome (Err e) w = Inr (Inr (Inr e), Inr False, Inr True) \<and>
   calls (snd (then_do (Err e) (\<lambda>r. call_andThen r (traced 1 f)) w')) = calls w' \<and>
   (Success_at w s v \<longrightarrow> call_and s q w = (Inr q, w) \<and> call_andThen s f w = f v w) \<and>
   (Failure_at w t e \<longrightarrow>
      call_and t q w = (Inr t, w) \<and> call_andThen t f w = (Inr t, w) \<and>
      observe t w = (Inr (Inr e), Inr False, Inr True)) \<and>
   (Failure_at w' t' e \<longrightarrow> calls (snd (call_andThen t' (traced 1 f) w')) = calls w') \<and>
   (only_allocates arg \<longrightarrow>
      then_do (Ok v) (\<lambda>r. then_do (arg r) (call_and r)) w = then_do (Ok v) arg w \<and>
      then_do (Ok v) (\<lambda>r. then_do (arg r) (\<lambda>y. call_andThen r (k y))) w =
        then_do (Ok v) (\<lambda>r. then_do (arg r) (\<lambda>y. k y v)) w \<and>
      then_do (Err e) (\<lambda>r. then_do (arg r) (call_and r)) w =
        then_do (Err e) (\<lambda>r. then_do (arg r) (\<lambda>y. returns r)) w \<and>
      then_do (Err e) (\<lambda>r. then_do (arg r) (\<lambda>y. call_andThen r (k y))) w =
        then_do (Err e) (\<lambda>r. then_do (arg r) (\<lambda>y. returns r)) w \<and>
      outcome (then_do (Err e) (\<lambda>r. then_do (arg r) (call_and r))) w =
        (case then_do (Err e) arg w of
           (Inl x, w1) \<Rightarrow> Inl x
         | (Inr y, w1) \<Rightarrow> Inr (Inr (Inr e), Inr False, Inr True)) \<and>
      outcome (then_do (Err e) (\<lambda>r. then_do (arg r) (\<lambda>y. call_andThen r (k y)))) w =
        (case then_do (Err e) arg w of
           (Inl x, w1) \<Rightarrow> Inl x
         | (Inr y, w1) \<Rightarrow> Inr (Inr (Inr e), Inr False, Inr True)))"
proof -
  have "outcome (then_do (Err e) (\<lambda>r. call_and r q)) w = outcome (Err e) w"
    by (rule outcome_cong) (rule and_fresh)
  moreover have "outcome (then_do (Err e) (\<lambda>r. call_andThen r f)) w = outcome (Err e) w"
    by (rule outcome_cong) (rule andThen_fresh)
  ultimately have fresh:
    "then_do (Ok v) (\<lambda>r. call_and r q) w = (Inr q, snd (Ok v w)) \<and>
     then_do (Ok v) (\<lambda>r. call_andThen r f) w = f v (snd (Ok v w)) \<and>
     then_do (Err e) (\<lambda>r. call_and r q) w = Err e w \<and>
     then_do (Err e) (\<lambda>r. call_andThen r f) w = Err e w \<and>
     outcome (then_do (Err e) (\<lambda>r. call_and r q)) w = outcome (Err e) w \<and>
     outcome (then_do (Err e) (\<lambda>r. call_andThen r f)) w = outcome (Err e) w \<and>
     outcome (Err e) w = Inr (Inr (Inr e), Inr False, Inr True) \<and>
     calls (snd (then_do (Err e) (\<lambda>r. call_andThen r (traced 1 f)) w')) = calls w'"
    by (simp add: and_fresh andThen_fresh returns_def outcome_Err calls_Err)
  have success:
    "Success_at w s v \<longrightarrow> call_and s q w = (Inr q, w) \<and> call_andThen s f w = f v w"
    by (simp add: chain_on_Success)
  have failure:
    "Failure_at w t e \<longrightarrow>
      call_and t q w = (Inr t, w) \<and> call_andThen t f w = (Inr t, w) \<and>
      observe t w = (Inr (Inr e), Inr False, Inr True)"
    by (simp add: chain_on_Failure observe_Failure)
  have silent:
    "Failure_at w' t' e \<longrightarrow> calls (snd (call_andThen t' (traced 1 f) w')) = calls w'"
    by (simp add: chain_on_Failure)
  have later:
    "only_allocates arg \<longrightarrow>
      then_do (Ok v) (\<lambda>r. then_do (arg r) (call_and r)) w = then_do (Ok v) arg w \<and>
      then_do (Ok v) (\<lambda>r. then_do (arg r) (\<lambda>y. call_andThen r (k y))) w =
        then_do (Ok v) (\<lambda>r. then_do (arg r) (\<lambda>y. k y v)) w \<and>
      then_do (Err e) (\<lambda>r. then_do (arg r) (call_and r)) w =
        then_do (Err e) (\<lambda>r. then_do (arg r) (\<lambda>y. returns r)) w \<and>
      then_do (Err e) (\<lambda>r. then_do (arg r) (\<lambda>y. call_andThen r (k y))) w =
        then_do (Err e) (\<lambda>r. then_do (arg r) (\<lambda>y. returns r)) w \<and>
      outcome (then_do (Err e) (\<lambda>r. then_do (arg r) (call_and r))) w =
        (case then_do (Err e) arg w of
           (Inl x, w1) \<Rightarrow> Inl x
         | (Inr y, w1) \<Rightarrow> Inr (Inr (Inr e), Inr False, Inr True)) \<and>
      outcome (then_do (Err e) (\<lambda>r. then_do (arg r) (\<lambda>y. call_andThen r (k y)))) w =
        (case then_do (Err e) arg w of
           (Inl x, w1) \<Rightarrow> Inl x
         | (Inr y, w1) \<Rightarrow> Inr (Inr (Inr e), Inr False, Inr True))"
  proof
    assume arg: "only_allocates arg"
    note on_Ok = after_argument_Success [OF arg Success_at_fresh]
    note on_Err = after_argument_Failure [OF arg Failure_at_fresh]
    show "then_do (Ok v) (\<lambda>r. then_do (arg r) (call_and r)) w = then_do (Ok v) arg w \<and>
      then_do (Ok v) (\<lambda>r. then_do (arg r) (\<lambda>y. call_andThen r (k y))) w =
        then_do (Ok v) (\<lambda>r. then_do (arg r) (\<lambda>y. k y v)) w \<and>
      then_do (Err e) (\<lambda>r. then_do (arg r) (call_and r)) w =
        then_do (Err e) (\<lambda>r. then_do (arg r) (\<lambda>y. returns r)) w \<and>
      then_do (Err e) (\<lambda>r. then_do (arg r) (\<lambda>y. call_andThen r (k y))) w =
        then_do (Err e) (\<lambda>r. then_do (arg r) (\<lambda>y. returns r)) w \<and>
      outcome (then_do (Err e) (\<lambda>r. then_do (arg r) (call_and r))) w =
        (case then_do (Err e) arg w of
           (Inl x, w1) \<Rightarrow> Inl x
         | (Inr y, w1) \<Rightarrow> Inr (Inr (Inr e), Inr False, Inr True)) \<and>
      outcome (then_do (Err e) (\<lambda>r. then_do (arg r) (\<lambda>y. call_andThen r (k y)))) w =
        (case then_do (Err e) arg w of
           (Inl x, w1) \<Rightarrow> Inl x
         | (Inr y, w1) \<Rightarrow> Inr (Inr (Inr e), Inr False, Inr True))"
      unfolding outcome_def [of "then_do (Err e) (\<lambda>r. then_do (arg r) (call_and r))"]
        outcome_def [of "then_do (Err e) (\<lambda>r. then_do (arg r) (\<lambda>y. call_andThen r (k y)))"]
        then_do_Ok then_do_Err on_Ok on_Err
      using on_Err(5) by (simp add: outcome_def)
  qed
  from fresh success failure silent later show ?thesis
    by (elim conjE) (intro conjI; assumption)
qed

theorem and_andThen_short_circuit_witness:
  "Success_at (snd (Err ''x'' (snd (Ok (1::nat) (empty_world ()))))) 0 1 \<and>
   Failure_at (snd (Err ''x'' (snd (Ok (1::nat) (empty_world ()))))) 1 ''x'' \<and>
   Failure_at (snd (Err ''x'' (empty_world ([], ()))) :: (nat, string, nat list \<times> unit) world) 0 ''x'' \<and>
   only_allocates (\<lambda>r::ref. Ok (2::nat) :: (ref, nat, string, unit) effect) \<and>
   call_and 0 1 (snd (Err ''x'' (snd (Ok (1::nat) (empty_world ()))))) =
     (Inr 1, snd (Err ''x'' (snd (Ok (1::nat) (empty_world ()))))) \<and>
   call_and 1 0 (snd (Err ''x'' (snd (Ok (1::nat) (empty_world ()))))) =
     (Inr 1, snd (Err ''x'' (snd (Ok (1::nat) (empty_world ()))))) \<and>
   calls (snd (call_andThen 0 (traced 1 (\<lambda>v. Ok (v::nat)))
       (snd (Err ''x'' (empty_world ([], ()))) :: (nat, string, nat list \<times> unit) world))) = [] \<and>
   then_do (Ok (1::nat)) (\<lambda>r. then_do (Ok 2) (call_and r)) (empty_world ()) =
     (then_do (Ok 1) (\<lambda>r. Ok 2) (empty_world ()) :: (error + ref) \<times> (nat, string, unit) world) \<and>
   outcome (then_do (Err ''x'') (\<lambda>r. then_do (Ok (2::nat)) (call_and r))) (empty_world ()) =
     Inr (Inr (Inr ''x''), Inr False, Inr True)"
proof -
  let ?w = "snd (Err ''x'' (snd (Ok (1::nat) (empty_world ())))) :: (nat, string, unit) world"
  let ?w' = "snd (Err ''x'' (empty_world ([], ()))) :: (nat, string, nat list \<times> unit) world"
  let ?arg = "\<lambda>r::ref. Ok (2::nat) :: (ref, nat, string, unit) effect"
  let ?f = "\<lambda>v::nat. Ok v :: (ref, nat, string, unit) effect"
  have s: "Success_at ?w 0 1"
    by (simp add: Success_at_def lookup_def Err_def Ok_def alloc_def empty_world_def)
  have t: "Failure_at ?w 1 ''x''"
    by (simp add: Failure_at_def lookup_def Err_def Ok_def alloc_def empty_world_def)
  have t': "Failure_at ?w' 0 ''x''"
    by (simp add: Failure_at_def lookup_def Err_def alloc_def empty_world_def)
  have arg: "only_allocates ?arg"
    by (rule only_allocates_Ok)
  have none: "calls ?w' = []"
    by (simp add: calls_def Err_def alloc_def empty_world_def)
  note older = and_andThen_short_circuit
    [where w = ?w and s = 0 and t = 1 and v = 1 and e = "''x''" and w' = ?w' and t' = 0
      and f = ?f and arg = ?arg]
  note expr = and_andThen_short_circuit
    [where w = "empty_world ()" and v = 1 and e = "''x''" and arg = ?arg and f = ?f]
  from older s have a: "call_and 0 1 ?w = (Inr 1, ?w)"
    by blast
  from older t have b: "call_and 1 0 ?w = (Inr 1, ?w)"
    by blast
  from older t' none have c: "calls (snd (call_andThen 0 (traced 1 ?f) ?w')) = []"
    by simp
  from expr arg
  have d: "then_do (Ok (1::nat)) (\<lambda>r. then_do (?arg r) (call_and r)) (empty_world ()) =
      then_do (Ok 1) ?arg (empty_world ())"
    and "outcome (then_do (Err ''x'') (\<lambda>r. then_do (?arg r) (call_and r))) (empty_world ()) =
      (case then_do (Err ''x'') ?arg (empty_world ()) of
         (Inl x, w1) \<Rightarrow> Inl x
       | (Inr y, w1) \<Rightarrow> Inr (Inr (Inr ''x''), Inr False, Inr True))"
    by blast+
  then have e: "outcome (then_do (Err ''x'') (\<lambda>r. then_do (?arg r) (call_and r))) (empty_world ()) =
      Inr (Inr (Inr ''x''), Inr False, Inr True)"
    by (simp add: then_do_def Err_def Ok_def alloc_def)
  from s t t' arg a b c d e show ?thesis
    by (intro conjI)
qed

text \<open>
  C4. For every value \<open>v\<close>, error \<open>e\<close>, Result \<open>q\<close> and Result-returning function \<open>f\<close>:
  \<^verbatim>\<open>Ok(v).or(q)\<close> and \<^verbatim>\<open>Ok(v).orElse(f)\<close> are the instance \<^verbatim>\<open>Ok(v)\<close> itself, a Success
  holding \<open>v\<close>, and on that path \<open>f\<close> is never invoked; \<^verbatim>\<open>Err(e).or(q)\<close> returns \<open>q\<close> and
  \<^verbatim>\<open>Err(e).orElse(f)\<close> is the call \<open>f(e)\<close>. This holds
  \<^item> when the call is made right after the receiver's constructor, with \<open>q\<close> and \<open>f\<close>
    at hand already;
  \<^item> for a receiver \<open>s\<close> or \<open>t\<close> of any world, whatever was created before or after it;
  \<^item> for \<^verbatim>\<open>Err(e).or(expr)\<close> and \<^verbatim>\<open>Ok(v).or(expr)\<close> where the argument is evaluated
    after the receiver and may create the Result it evaluates to, as in
    \<^verbatim>\<open>Err('').or(Ok(0))\<close>, and likewise for a callback built then.
\<close>

theorem or_orElse_recover:
  "then_do (Ok v) (\<lambda>r. call_or r q) w = Ok v w \<and>
   then_do (Ok v) (\<lambda>r. call_orElse r f) w = Ok v w \<and>
   outcome (then_do (Ok v) (\<lambda>r. call_or r q)) w = outcome (Ok v) w \<and>
   outcome (then_do (Ok v) (\<lambda>r. call_orElse r f)) w = outcome (Ok v) w \<and>
   outcome (Ok v) w = Inr (Inr (Inl v), Inr True, Inr False) \<and>
   calls (snd (then_do (Ok v) (\<lambda>r. call_orElse r (traced 1 f)) w')) = calls w' \<and>
   then_do (Err e) (\<lambda>r. call_or r q) w = (Inr q, snd (Err e w)) \<and>
   then_do (Err e) (\<lambda>r. call_orElse r f) w = f e (snd (Err e w)) \<and>
   (Success_at w s v \<longrightarrow>
      call_or s q w = (Inr s, w) \<and> call_orElse s f w = (Inr s, w) \<and>
      observe s w = (Inr (Inl v), Inr True, Inr False)) \<and>
   (Success_at w' s' v \<longrightarrow> calls (snd (call_orElse s' (traced 1 f) w')) = calls w') \<and>
   (Failure_at w t e \<longrightarrow> call_or t q w = (Inr q, w) \<and> call_orElse t f w = f e w) \<and>
   (only_allocates arg \<longrightarrow>
      then_do (Err e) (\<lambda>r. then_do (arg r) (call_or r)) w = then_do (Err e) arg w \<and>
      then_do (Err e) (\<lambda>r. then_do (arg r) (\<lambda>y. call_orElse r (k y))) w =
        then_do (Err e) (\<lambda>r. then_do (arg r) (\<lambda>y. k y e)) w \<and>
      then_do (Ok v) (\<lambda>r. then_do (arg r) (call_or r)) w =
        then_do (Ok v) (\<lambda>r. then_do (arg r) (\<lambda>y. returns r)) w \<and>
      then_do (Ok v) (\<lambda>r. then_do (arg r) (\<lambda>y. call_orElse r (k y))) w =
        then_do (Ok v) (\<lambda>r. then_do (arg r) (\<lambda>y. returns r)) w \<and>
      outcome (then_do (Ok v) (\<lambda>r. then_do (arg r) (call_or r))) w =
        (case then_do (Ok v) arg w of
           (Inl x, w1) \<Rightarrow> Inl x
         | (Inr y, w1) \<Rightarrow> Inr (Inr (Inl v), Inr True, Inr False)) \<and>
      outcome (then_do (Ok v) (\<lambda>r. then_do (arg r) (\<lambda>y. call_orElse r (k y)))) w =
        (case then_do (Ok v) arg w of
           (Inl x, w1) \<Rightarrow> Inl x
         | (Inr y, w1) \<Rightarrow> Inr (Inr (Inl v), Inr True, Inr False)))"
proof -
  have "outcome (then_do (Ok v) (\<lambda>r. call_or r q)) w = outcome (Ok v) w"
    by (rule outcome_cong) (rule or_fresh)
  moreover have "outcome (then_do (Ok v) (\<lambda>r. call_orElse r f)) w = outcome (Ok v) w"
    by (rule outcome_cong) (rule orElse_fresh)
  ultimately have fresh:
    "then_do (Ok v) (\<lambda>r. call_or r q) w = Ok v w \<and>
     then_do (Ok v) (\<lambda>r. call_orElse r f) w = Ok v w \<and>
     outcome (then_do (Ok v) (\<lambda>r. call_or r q)) w = outcome (Ok v) w \<and>
     outcome (then_do (Ok v) (\<lambda>r. call_orElse r f)) w = outcome (Ok v) w \<and>
     outcome (Ok v) w = Inr (Inr (Inl v), Inr True, Inr False) \<and>
     calls (snd (then_do (Ok v) (\<lambda>r. call_orElse r (traced 1 f)) w')) = calls w' \<and>
     then_do (Err e) (\<lambda>r. call_or r q) w = (Inr q, snd (Err e w)) \<and>
     then_do (Err e) (\<lambda>r. call_orElse r f) w = f e (snd (Err e w))"
    by (simp add: or_fresh orElse_fresh returns_def outcome_Ok calls_Ok)
  have success:
    "Success_at w s v \<longrightarrow>
      call_or s q w = (Inr s, w) \<and> call_orElse s f w = (Inr s, w) \<and>
      observe s w = (Inr (Inl v), Inr True, Inr False)"
    by (simp add: chain_on_Success observe_Success)
  have silent:
    "Success_at w' s' v \<longrightarrow> calls (snd (call_orElse s' (traced 1 f) w')) = calls w'"
    by (simp add: chain_on_Success)
  have failure:
    "Failure_at w t e \<longrightarrow> call_or t q w = (Inr q, w) \<and> call_orElse t f w = f e w"
    by (simp add: chain_on_Failure)
  have later:
    "only_allocates arg \<longrightarrow>
      then_do (Err e) (\<lambda>r. then_do (arg r) (call_or r)) w = then_do (Err e) arg w \<and>
      then_do (Err e) (\<lambda>r. then_do (arg r) (\<lambda>y. call_orElse r (k y))) w =
        then_do (Err e) (\<lambda>r. then_do (arg r) (\<lambda>y. k y e)) w \<and>
      then_do (Ok v) (\<lambda>r. then_do (arg r) (call_or r)) w =
        then_do (Ok v) (\<lambda>r. then_do (arg r) (\<lambda>y. returns r)) w \<and>
      then_do (Ok v) (\<lambda>r. then_do (arg r) (\<lambda>y. call_orElse r (k y))) w =
        then_do (Ok v) (\<lambda>r. then_do (arg r) (\<lambda>y. returns r)) w \<and>
      outcome (then_do (Ok v) (\<lambda>r. then_do (arg r) (call_or r))) w =
        (case then_do (Ok v) arg w of
           (Inl x, w1) \<Rightarrow> Inl x
         | (Inr y, w1) \<Rightarrow> Inr (Inr (Inl v), Inr True, Inr False)) \<and>
      outcome (then_do (Ok v) (\<lambda>r. then_do (arg r) (\<lambda>y. call_orElse r (k y)))) w =
        (case then_do (Ok v) arg w of
           (Inl x, w1) \<Rightarrow> Inl x
         | (Inr y, w1) \<Rightarrow> Inr (Inr (Inl v), Inr True, Inr False))"
  proof
    assume arg: "only_allocates arg"
    note on_Ok = after_argument_Success [OF arg Success_at_fresh]
    note on_Err = after_argument_Failure [OF arg Failure_at_fresh]
    note seen = outcome_after_argument_Success [OF arg Success_at_fresh]
    show "then_do (Err e) (\<lambda>r. then_do (arg r) (call_or r)) w = then_do (Err e) arg w \<and>
      then_do (Err e) (\<lambda>r. then_do (arg r) (\<lambda>y. call_orElse r (k y))) w =
        then_do (Err e) (\<lambda>r. then_do (arg r) (\<lambda>y. k y e)) w \<and>
      then_do (Ok v) (\<lambda>r. then_do (arg r) (call_or r)) w =
        then_do (Ok v) (\<lambda>r. then_do (arg r) (\<lambda>y. returns r)) w \<and>
      then_do (Ok v) (\<lambda>r. then_do (arg r) (\<lambda>y. call_orElse r (k y))) w =
        then_do (Ok v) (\<lambda>r. then_do (arg r) (\<lambda>y. returns r)) w \<and>
      outcome (then_do (Ok v) (\<lambda>r. then_do (arg r) (call_or r))) w =
        (case then_do (Ok v) arg w of
           (Inl x, w1) \<Rightarrow> Inl x
         | (Inr y, w1) \<Rightarrow> Inr (Inr (Inl v), Inr True, Inr False)) \<and>
      outcome (then_do (Ok v) (\<lambda>r. then_do (arg r) (\<lambda>y. call_orElse r (k y)))) w =
        (case then_do (Ok v) arg w of
           (Inl x, w1) \<Rightarrow> Inl x
         | (Inr y, w1) \<Rightarrow> Inr (Inr (Inl v), Inr True, Inr False))"
      unfolding outcome_def [of "then_do (Ok v) (\<lambda>r. then_do (arg r) (call_or r))"]
        outcome_def [of "then_do (Ok v) (\<lambda>r. then_do (arg r) (\<lambda>y. call_orElse r (k y)))"]
        then_do_Ok then_do_Err on_Ok on_Err
      using seen by (simp add: outcome_def)
  qed
  from fresh success silent failure later show ?thesis
    by (elim conjE) (intro conjI; assumption)
qed

theorem or_orElse_recover_witness:
  "Failure_at (snd (Ok (0::nat) (snd (Err ''e'' (empty_world ()))))) 0 ''e'' \<and>
   Success_at (snd (Ok (0::nat) (snd (Err ''e'' (empty_world ()))))) 1 0 \<and>
   Success_at (snd (Ok (0::nat) (empty_world ([], ()))) :: (nat, string, nat list \<times> unit) world) 0 0 \<and>
   only_allocates (\<lambda>r::ref. Ok (0::nat) :: (ref, nat, string, unit) effect) \<and>
   call_or 0 1 (snd (Ok (0::nat) (snd (Err ''e'' (empty_world ()))))) =
     (Inr 1, snd (Ok (0::nat) (snd (Err ''e'' (empty_world ()))))) \<and>
   call_or 1 0 (snd (Ok (0::nat) (snd (Err ''e'' (empty_world ()))))) =
     (Inr 1, snd (Ok (0::nat) (snd (Err ''e'' (empty_world ()))))) \<and>
   calls (snd (call_orElse 0 (traced 1 (\<lambda>e::string. Err e))
       (snd (Ok (0::nat) (empty_world ([], ()))) :: (nat, string, nat list \<times> unit) world))) = [] \<and>
   then_do (Err ''e'') (\<lambda>r. then_do (Ok (0::nat)) (call_or r)) (empty_world ()) =
     (then_do (Err ''e'') (\<lambda>r. Ok 0) (empty_world ()) :: (error + ref) \<times> (nat, string, unit) world) \<and>
   outcome (then_do (Ok (0::nat)) (\<lambda>r. then_do (Ok 0) (call_or r)))
       (empty_world () :: (nat, string, unit) world) =
     Inr (Inr (Inl 0), Inr True, Inr False)"
proof -
  let ?w = "snd (Ok (0::nat) (snd (Err ''e'' (empty_world ())))) :: (nat, string, unit) world"
  let ?w' = "snd (Ok (0::nat) (empty_world ([], ()))) :: (nat, string, nat list \<times> unit) world"
  let ?arg = "\<lambda>r::ref. Ok (0::nat) :: (ref, nat, string, unit) effect"
  let ?f = "\<lambda>e::string. Err e :: (ref, nat, string, unit) effect"
  have t: "Failure_at ?w 0 ''e''"
    by (simp add: Failure_at_def lookup_def Err_def Ok_def alloc_def empty_world_def)
  have s: "Success_at ?w 1 0"
    by (simp add: Success_at_def lookup_def Err_def Ok_def alloc_def empty_world_def)
  have s': "Success_at ?w' 0 0"
    by (simp add: Success_at_def lookup_def Ok_def alloc_def empty_world_def)
  have arg: "only_allocates ?arg"
    by (rule only_allocates_Ok)
  have none: "calls ?w' = []"
    by (simp add: calls_def Ok_def alloc_def empty_world_def)
  note older = or_orElse_recover
    [where w = ?w and s = 1 and t = 0 and v = 0 and e = "''e''" and w' = ?w' and s' = 0
      and f = ?f and arg = ?arg]
  note expr = or_orElse_recover
    [where w = "empty_world ()" and v = 0 and e = "''e''" and arg = ?arg and f = ?f]
  from older t have a: "call_or 0 1 ?w = (Inr 1, ?w)"
    by blast
  from older s have b: "call_or 1 0 ?w = (Inr 1, ?w)"
    by blast
  from older s' none have c: "calls (snd (call_orElse 0 (traced 1 ?f) ?w')) = []"
    by simp
  from expr arg
  have d: "then_do (Err ''e'') (\<lambda>r. then_do (?arg r) (call_or r)) (empty_world ()) =
      then_do (Err ''e'') ?arg (empty_world ())"
    and "outcome (then_do (Ok (0::nat)) (\<lambda>r. then_do (?arg r) (call_or r))) (empty_world ()) =
      (case then_do (Ok 0) ?arg (empty_world ()) of
         (Inl x, w1) \<Rightarrow> Inl x
       | (Inr y, w1) \<Rightarrow> Inr (Inr (Inl 0), Inr True, Inr False))"
    by blast+
  then have e: "outcome (then_do (Ok (0::nat)) (\<lambda>r. then_do (?arg r) (call_or r)))
      (empty_world () :: (nat, string, unit) world) = Inr (Inr (Inl 0), Inr True, Inr False)"
    by (simp add: then_do_def Ok_def alloc_def)
  from t s s' arg a b c d e show ?thesis
    by (intro conjI)
qed

text \<open>
  C5. For every Result \<open>r\<close> and Result-returning functions \<open>f\<close> and \<open>g\<close>,
  \<^verbatim>\<open>r.andThen(f).andThen(g)\<close> and \<^verbatim>\<open>r.andThen(x => f(x).andThen(g))\<close> are the same
  computation: the same Result (or the same error) in the same world, hence
  observationally equal.
\<close>

theorem andThen_associative:
  "then_do (call_andThen r f) (\<lambda>s. call_andThen s g) w =
     call_andThen r (\<lambda>x. then_do (f x) (\<lambda>s. call_andThen s g)) w \<and>
   outcome (then_do (call_andThen r f) (\<lambda>s. call_andThen s g)) w =
     outcome (call_andThen r (\<lambda>x. then_do (f x) (\<lambda>s. call_andThen s g))) w"
proof -
  have eq: "then_do (call_andThen r f) (\<lambda>s. call_andThen s g) w =
      call_andThen r (\<lambda>x. then_do (f x) (\<lambda>s. call_andThen s g)) w"
  proof (cases "lookup w r")
    case None
    then show ?thesis
      by (simp add: call_andThen_def method_call_TypeError then_do_def)
  next
    case (Some obj)
    show ?thesis
    proof (cases "methods obj")
      case (OkClosure v)
      with Some show ?thesis
        by (simp add: call_andThen_def method_call_Ok then_do_def)
    next
      case (ErrClosure e)
      with Some show ?thesis
        by (simp add: call_andThen_def method_call_Err then_do_def returns_def)
    qed
  qed
  then show ?thesis
    by (simp add: outcome_def)
qed

text \<open>
  C10. For every Result \<open>r\<close>, Success or Failure, and every function \<open>f\<close>, \<^verbatim>\<open>r.map(f)\<close> and
  \<^verbatim>\<open>r.andThen(x => Ok(f(x)))\<close> are the same computation, hence observationally equal.
\<close>

theorem map_is_andThen_Ok:
  "call_map r f w = call_andThen r (\<lambda>x. then_do (f x) Ok) w \<and>
   outcome (call_map r f) w = outcome (call_andThen r (\<lambda>x. then_do (f x) Ok)) w"
proof -
  have eq: "call_map r f w = call_andThen r (\<lambda>x. then_do (f x) Ok) w"
    by (simp add: call_map_def call_andThen_def method_call_def
        split: option.split closure.split)
  then show ?thesis
    by (simp add: outcome_def)
qed

section \<open>What a call can do to the world\<close>

text \<open>
  Every method call reaches the world it leaves behind by steps of three kinds only:
  running a callback it was given, calling \<^verbatim>\<open>Ok\<close>, calling \<^verbatim>\<open>Err\<close>. So a step-closed
  relation that the callbacks respect holds across the call.
\<close>

lemma step_closed_refl: "step_closed R \<Longrightarrow> R w w"
  by (simp add: step_closed_def)

lemma step_closed_trans: "step_closed R \<Longrightarrow> R a b \<Longrightarrow> R b c \<Longrightarrow> R a c"
  unfolding step_closed_def by (elim conjE allE [of _ a] allE [of _ b] allE [of _ c]) simp

lemma keeps_Ok: "step_closed R \<Longrightarrow> keeps R Ok"
  by (simp add: step_closed_def keeps_def)

lemma keeps_Err: "step_closed R \<Longrightarrow> keeps R Err"
  by (simp add: step_closed_def keeps_def)

lemma keeps_step: "keeps R f \<Longrightarrow> R w (snd (f x w))"
  by (simp add: keeps_def)

lemma then_do_frame:
  assumes closed: "step_closed R"
    and first: "R w (snd (m w))"
    and second: "keeps R k"
  shows "R w (snd (then_do m k w))"
proof (cases "m w")
  case (Pair res w1)
  show ?thesis
  proof (cases res)
    case (Inl x)
    with Pair first show ?thesis
      by (simp add: then_do_def)
  next
    case (Inr y)
    from Pair first have "R w w1"
      by simp
    then have "R w (snd (k y w1))"
      by (rule step_closed_trans [OF closed]) (rule keeps_step [OF second])
    with Pair Inr show ?thesis
      by (simp add: then_do_def)
  qed
qed

lemma method_call_frame:
  assumes "R w w"
    and "\<And>v. R w (snd (a r v w))"
    and "\<And>e. R w (snd (b r e w))"
  shows "R w (snd (method_call r a b w))"
  using assms by (simp add: method_call_def split: option.split closure.split)

lemma frame_match:
  assumes closed: "step_closed R" and "keeps R ok" and "keeps R err"
  shows "R w (snd (call_match r ok err w))"
  unfolding call_match_def
  by (rule method_call_frame [where R = R])
    (simp_all add: step_closed_refl [OF closed] keeps_step assms)

lemma frame_getValueOrDefault:
  assumes closed: "step_closed R"
  shows "R w (snd (call_getValueOrDefault r d w))"
  unfolding call_getValueOrDefault_def
  by (rule method_call_frame [where R = R])
    (simp_all add: step_closed_refl [OF closed] returns_def)

lemma frame_getValueOrCompute:
  assumes closed: "step_closed R" and "keeps R c"
  shows "R w (snd (call_getValueOrCompute r c w))"
  unfolding call_getValueOrCompute_def
  by (rule method_call_frame [where R = R])
    (simp_all add: step_closed_refl [OF closed] keeps_step assms returns_def)

lemma frame_map:
  assumes closed: "step_closed R" and cb: "keeps R f"
  shows "R w (snd (call_map r f w))"
  unfolding call_map_def
proof (rule method_call_frame [where R = R])
  show "R w (snd (Ok_map r v f w))" for v
    unfolding Ok_map.simps
    by (rule then_do_frame [where R = R, OF closed keeps_step [OF cb] keeps_Ok [OF closed]])
qed (simp_all add: step_closed_refl [OF closed] returns_def)

lemma frame_mapErr:
  assumes closed: "step_closed R" and cb: "keeps R h"
  shows "R w (snd (call_mapErr r h w))"
  unfolding call_mapErr_def
proof (rule method_call_frame [where R = R])
  show "R w (snd (Err_mapErr r e h w))" for e
    unfolding Err_mapErr.simps
    by (rule then_do_frame [where R = R, OF closed keeps_step [OF cb] keeps_Err [OF closed]])
qed (simp_all add: step_closed_refl [OF closed] returns_def)

lemma frame_and:
  assumes closed: "step_closed R"
  shows "R w (snd (call_and r q w))"
  unfolding call_and_def
  by (rule method_call_frame [where R = R])
    (simp_all add: step_closed_refl [OF closed] returns_def)

lemma frame_andThen:
  assumes closed: "step_closed R" and "keeps R k"
  shows "R w (snd (call_andThen r k w))"
  unfolding call_andThen_def
  by (rule method_call_frame [where R = R])
    (simp_all add: step_closed_refl [OF closed] keeps_step assms returns_def)

lemma frame_or:
  assumes closed: "step_closed R"
  shows "R w (snd (call_or r q w))"
  unfolding call_or_def
  by (rule method_call_frame [where R = R])
    (simp_all add: step_closed_refl [OF closed] returns_def)

lemma frame_orElse:
  assumes closed: "step_closed R" and "keeps R j"
  shows "R w (snd (call_orElse r j w))"
  unfolding call_orElse_def
  by (rule method_call_frame [where R = R])
    (simp_all add: step_closed_refl [OF closed] keeps_step assms returns_def)

section \<open>The indicator flags\<close>

lemma constructed_flags: "constructed obj \<Longrightarrow> isErr obj = (\<not> isOk obj)"
proof (cases "methods obj")
  case (OkClosure v)
  assume "constructed obj"
  with OkClosure have "obj = \<lparr>methods = OkClosure v, isOk = True, isErr = False\<rparr>"
    by (simp add: constructed_def)
  then show ?thesis
    by (cases obj) simp
next
  case (ErrClosure e)
  assume "constructed obj"
  with ErrClosure have "obj = \<lparr>methods = ErrClosure e, isOk = False, isErr = True\<rparr>"
    by (simp add: constructed_def)
  then show ?thesis
    by (cases obj) simp
qed

lemma well_formed_lookup: "well_formed w \<Longrightarrow> lookup w r = Some obj \<Longrightarrow> constructed obj"
  by (auto simp: well_formed_def lookup_def list_all_length split: if_splits)

lemma well_formed_empty: "well_formed (empty_world s)"
  by (simp add: well_formed_def empty_world_def)

lemma well_formed_Ok: "well_formed (snd (Ok v w)) = well_formed w"
  by (simp add: well_formed_def Ok_def alloc_def constructed_def)

lemma well_formed_Err: "well_formed (snd (Err e w)) = well_formed w"
  by (simp add: well_formed_def Err_def alloc_def constructed_def)

text \<open>
  Well-formedness is an invariant of every program that creates its Results through
  \<^verbatim>\<open>Ok\<close> and \<^verbatim>\<open>Err\<close>: it holds of the empty heap, and every method call keeps it when the
  callbacks do.
\<close>

lemma well_formed_step_closed: "step_closed (\<lambda>w w'. well_formed w \<longrightarrow> well_formed w')"
  by (simp add: step_closed_def well_formed_Ok well_formed_Err)

lemma constructs_only_keeps:
  "constructs_only f = keeps (\<lambda>w w'. well_formed w \<longrightarrow> well_formed w') f"
  by (simp add: constructs_only_def keeps_def)

lemma well_formed_calls:
  assumes "well_formed w"
  shows "constructs_only ok \<Longrightarrow> constructs_only err \<Longrightarrow> well_formed (snd (call_match r ok err w))"
    and "well_formed (snd (call_getValueOrDefault r d w))"
    and "constructs_only c \<Longrightarrow> well_formed (snd (call_getValueOrCompute r c w))"
    and "constructs_only f \<Longrightarrow> well_formed (snd (call_map r f w))"
    and "constructs_only h \<Longrightarrow> well_formed (snd (call_mapErr r h w))"
    and "well_formed (snd (call_and r q w))"
    and "constructs_only k \<Longrightarrow> well_formed (snd (call_andThen r k w))"
    and "well_formed (snd (call_or r q w))"
    and "constructs_only j \<Longrightarrow> well_formed (snd (call_orElse r j w))"
  using assms
    frame_match [OF well_formed_step_closed, of ok err w r]
    frame_getValueOrDefault [OF well_formed_step_closed, of w r d]
    frame_getValueOrCompute [OF well_formed_step_closed, of c w r]
    frame_map [OF well_formed_step_closed, of f w r]
    frame_mapErr [OF well_formed_step_closed, of h w r]
    frame_and [OF well_formed_step_closed, of w r q]
    frame_andThen [OF well_formed_step_closed, of k w r]
    frame_or [OF well_formed_step_closed, of w r q]
    frame_orElse [OF well_formed_step_closed, of j w r]
  by (simp_all add: constructs_only_keeps)

lemma reads_fresh:
  "then_do (Ok v) read_isOk w = (Inr True, snd (Ok v w))"
  "then_do (Ok v) read_isErr w = (Inr False, snd (Ok v w))"
  "then_do (Err e) read_isOk w = (Inr False, snd (Err e w))"
  "then_do (Err e) read_isErr w = (Inr True, snd (Err e w))"
  by (simp_all add: then_do_Ok then_do_Err read_isOk_def read_isErr_def lookup_Ok lookup_Err)

text \<open>
  C8. For every value \<open>v\<close> and error \<open>e\<close>: \<^verbatim>\<open>Ok(v).isOk\<close> is true and \<^verbatim>\<open>Ok(v).isErr\<close> is
  false, \<^verbatim>\<open>Err(e).isErr\<close> is true and \<^verbatim>\<open>Err(e).isOk\<close> is false; and on every Result \<open>r\<close>
  of a heap built through the constructors, reading \<^verbatim>\<open>r.isErr\<close> gives the negation of
  what reading \<^verbatim>\<open>r.isOk\<close> gives.
\<close>

theorem flags_complementary:
  "then_do (Ok v) read_isOk w = (Inr True, snd (Ok v w)) \<and>
   then_do (Ok v) read_isErr w = (Inr False, snd (Ok v w)) \<and>
   then_do (Err e) read_isErr w = (Inr True, snd (Err e w)) \<and>
   then_do (Err e) read_isOk w = (Inr False, snd (Err e w)) \<and>
   (well_formed w \<longrightarrow> r < length (heap w) \<longrightarrow>
      (\<exists>b. read_isOk r w = (Inr b, w) \<and> read_isErr r w = (Inr (\<not> b), w)))"
proof -
  have "\<exists>b. read_isOk r w = (Inr b, w) \<and> read_isErr r w = (Inr (\<not> b), w)"
    if wf: "well_formed w" and r: "r < length (heap w)"
  proof -
    from r have look: "lookup w r = Some (heap w ! r)"
      by (simp add: lookup_def)
    from well_formed_lookup [OF wf look] have "isErr (heap w ! r) = (\<not> isOk (heap w ! r))"
      by (rule constructed_flags)
    with look show ?thesis
      by (simp add: read_isOk_def read_isErr_def)
  qed
  then show ?thesis
    by (simp add: reads_fresh)
qed

theorem flags_complementary_witness:
  "well_formed (snd (Err (7::nat) (snd (Ok (5::nat) (empty_world ()))))) \<and>
   1 < length (heap (snd (Err (7::nat) (snd (Ok (5::nat) (empty_world ())))))) \<and>
   read_isOk 1 (snd (Err (7::nat) (snd (Ok (5::nat) (empty_world ()))))) =
     (Inr False, snd (Err (7::nat) (snd (Ok (5::nat) (empty_world ()))))) \<and>
   read_isErr 1 (snd (Err (7::nat) (snd (Ok (5::nat) (empty_world ()))))) =
     (Inr True, snd (Err (7::nat) (snd (Ok (5::nat) (empty_world ())))))"
proof -
  let ?w = "snd (Err (7::nat) (snd (Ok (5::nat) (empty_world ()))))"
  have wf: "well_formed ?w"
    by (simp add: well_formed_Err well_formed_Ok well_formed_empty)
  have len: "1 < length (heap ?w)"
    by (simp add: Err_def Ok_def alloc_def empty_world_def)
  have isOk: "read_isOk 1 ?w = (Inr False, ?w)"
    by (simp add: read_isOk_def lookup_def Err_def Ok_def alloc_def empty_world_def)
  from flags_complementary [where w = ?w and r = 1] wf len
  obtain b where b: "read_isOk 1 ?w = (Inr b, ?w)" "read_isErr 1 ?w = (Inr (\<not> b), ?w)"
    by blast
  from b(1) isOk have "\<not> b"
    by simp
  with b(2) have "read_isErr 1 ?w = (Inr True, ?w)"
    by simp
  with wf len isOk show ?thesis
    by blast
qed

section \<open>Immutability\<close>

lemma grows_step_closed: "step_closed grows"
  unfolding step_closed_def grows_def
proof (intro conjI allI impI)
  fix a b c :: "('t, 'e, 's) world"
  assume "prefix (heap a) (heap b) \<and> prefix (heap b) (heap c)"
  then show "prefix (heap a) (heap c)"
    by (auto simp: prefix_def)
qed (simp_all add: Ok_def Err_def alloc_def)

lemma only_allocates_keeps: "only_allocates f = keeps grows f"
  by (simp add: only_allocates_def keeps_def)

lemma observe_grows: "grows w w' \<Longrightarrow> q < length (heap w) \<Longrightarrow> observe q w' = observe q w"
  by (simp add: observe_lookup lookup_grows)

text \<open>
  No method call removes or changes an object: the heap it leaves has the heap it found
  as a prefix, whatever the receiver and the arguments.
\<close>

lemma calls_grow:
  "only_allocates ok \<Longrightarrow> only_allocates err \<Longrightarrow> grows w (snd (call_match r ok err w))"
  "grows w (snd (call_getValueOrDefault r d w))"
  "only_allocates c \<Longrightarrow> grows w (snd (call_getValueOrCompute r c w))"
  "only_allocates f \<Longrightarrow> grows w (snd (call_map r f w))"
  "only_allocates h \<Longrightarrow> grows w (snd (call_mapErr r h w))"
  "grows w (snd (call_and r q w))"
  "only_allocates k \<Longrightarrow> grows w (snd (call_andThen r k w))"
  "grows w (snd (call_or r q w))"
  "only_allocates j \<Longrightarrow> grows w (snd (call_orElse r j w))"
proof -
  note closed = grows_step_closed
  show "only_allocates ok \<Longrightarrow> only_allocates err \<Longrightarrow> grows w (snd (call_match r ok err w))"
    unfolding only_allocates_keeps by (rule frame_match [where R = grows, OF closed])
  show "grows w (snd (call_getValueOrDefault r d w))"
    by (rule frame_getValueOrDefault [where R = grows, OF closed])
  show "only_allocates c \<Longrightarrow> grows w (snd (call_getValueOrCompute r c w))"
    unfolding only_allocates_keeps by (rule frame_getValueOrCompute [where R = grows, OF closed])
  show "only_allocates f \<Longrightarrow> grows w (snd (call_map r f w))"
    unfolding only_allocates_keeps by (rule frame_map [where R = grows, OF closed])
  show "only_allocates h \<Longrightarrow> grows w (snd (call_mapErr r h w))"
    unfolding only_allocates_keeps by (rule frame_mapErr [where R = grows, OF closed])
  show "grows w (snd (call_and r q w))"
    by (rule frame_and [where R = grows, OF closed])
  show "only_allocates k \<Longrightarrow> grows w (snd (call_andThen r k w))"
    unfolding only_allocates_keeps by (rule frame_andThen [where R = grows, OF closed])
  show "grows w (snd (call_or r q w))"
    by (rule frame_or [where R = grows, OF closed])
  show "only_allocates j \<Longrightarrow> grows w (snd (call_orElse r j w))"
    unfolding only_allocates_keeps by (rule frame_orElse [where R = grows, OF closed])
qed

text \<open>
  C9. No operation mutates an existing Result. Let \<open>r\<close> be a Result of the heap, and let
  the callbacks be code that can create Results but not reach into one (they only
  allocate). After each of the nine calls on \<open>r\<close>, observing \<open>r\<close> through \<^verbatim>\<open>match\<close> and the
  two flags yields what it yielded before: the same variant, the same payload.
\<close>

theorem results_are_immutable:
  assumes "r < length (heap w)"
    and "only_allocates ok" and "only_allocates err" and "only_allocates c"
    and "only_allocates f" and "only_allocates h" and "only_allocates k" and "only_allocates j"
  shows "observe r (snd (call_match r ok err w)) = observe r w \<and>
         observe r (snd (call_getValueOrDefault r d w)) = observe r w \<and>
         observe r (snd (call_getValueOrCompute r c w)) = observe r w \<and>
         observe r (snd (call_map r f w)) = observe r w \<and>
         observe r (snd (call_mapErr r h w)) = observe r w \<and>
         observe r (snd (call_and r q w)) = observe r w \<and>
         observe r (snd (call_andThen r k w)) = observe r w \<and>
         observe r (snd (call_or r q w)) = observe r w \<and>
         observe r (snd (call_orElse r j w)) = observe r w"
proof -
  have same: "observe r w' = observe r w" if "grows w w'" for w'
    using that assms(1) by (rule observe_grows)
  show ?thesis
    by (intro conjI same) (simp_all add: calls_grow assms)
qed

theorem results_are_immutable_witness:
  "0 < length (heap (snd (Ok (5::nat) (empty_world ())) :: (nat, nat, unit) world)) \<and>
   only_allocates (\<lambda>x::nat. returns (Suc x) :: (nat, nat, nat, unit) effect) \<and>
   only_allocates (\<lambda>e::nat. returns e :: (nat, nat, nat, unit) effect) \<and>
   only_allocates (\<lambda>x::nat. Ok (Suc x) :: (ref, nat, nat, unit) effect) \<and>
   only_allocates (\<lambda>e::nat. Err e :: (ref, nat, nat, unit) effect) \<and>
   observe 0 (snd (call_match 0 (\<lambda>x. returns (Suc x)) (\<lambda>e. returns e)
       (snd (Ok (5::nat) (empty_world ())) :: (nat, nat, unit) world))) =
     observe 0 (snd (Ok (5::nat) (empty_world ())) :: (nat, nat, unit) world) \<and>
   observe 0 (snd (call_map 0 (\<lambda>x. returns (Suc x))
       (snd (Ok (5::nat) (empty_world ())) :: (nat, nat, unit) world))) =
     observe 0 (snd (Ok (5::nat) (empty_world ())) :: (nat, nat, unit) world) \<and>
   observe 0 (snd (call_andThen 0 (\<lambda>x. Ok (Suc x))
       (snd (Ok (5::nat) (empty_world ())) :: (nat, nat, unit) world))) =
     observe 0 (snd (Ok (5::nat) (empty_world ())) :: (nat, nat, unit) world) \<and>
   observe 0 (snd (Ok (5::nat) (empty_world ())) :: (nat, nat, unit) world) =
     (Inr (Inl 5), Inr True, Inr False)"
proof -
  let ?w = "snd (Ok (5::nat) (empty_world ())) :: (nat, nat, unit) world"
  let ?suc = "\<lambda>x::nat. returns (Suc x) :: (nat, nat, nat, unit) effect"
  let ?same = "\<lambda>e::nat. returns e :: (nat, nat, nat, unit) effect"
  let ?next = "\<lambda>x::nat. Ok (Suc x) :: (ref, nat, nat, unit) effect"
  let ?fail = "\<lambda>e::nat. Err e :: (ref, nat, nat, unit) effect"
  have r: "0 < length (heap ?w)"
    by (simp add: Ok_def alloc_def empty_world_def)
  have suc: "only_allocates ?suc" and same: "only_allocates ?same"
    and nxt: "only_allocates ?next" and fail: "only_allocates ?fail"
    by (rule only_allocates_returns only_allocates_Ok only_allocates_Err)+
  have now: "observe 0 ?w = (Inr (Inl 5), Inr True, Inr False)"
    by (simp add: observe_lookup lookup_def Ok_def alloc_def empty_world_def)
  from results_are_immutable [OF r suc same same suc same nxt fail, of 0 0]
  have "observe 0 (snd (call_match 0 ?suc ?same ?w)) = observe 0 ?w"
    and "observe 0 (snd (call_map 0 ?suc ?w)) = observe 0 ?w"
    and "observe 0 (snd (call_andThen 0 ?next ?w)) = observe 0 ?w"
    by simp_all
  with r suc same nxt fail now show ?thesis
    by (intro conjI)
qed

section \<open>The scenarios of the README and of the test suite\<close>

text \<open>\<^verbatim>\<open>Ok(5).match(value => value * 2, _ => 0)\<close> is 10.\<close>

lemma scenario_match:
  "fst (then_do (Ok (5::nat)) (\<lambda>r. call_match r (\<lambda>v. returns (v * 2)) (\<lambda>e::string. returns 0))
      (empty_world ())) = Inr 10"
  by (simp add: match_fresh returns_def)

text \<open>\<^verbatim>\<open>Ok(5).getValueOrDefault(10)\<close> is 5 and \<^verbatim>\<open>Err("400").getValueOrDefault(10)\<close> is 10.\<close>

lemma scenario_getValueOrDefault:
  "fst (then_do (Ok (5::nat)) (\<lambda>r. call_getValueOrDefault r 10)
      (empty_world () :: (nat, string, unit) world)) = Inr 5"
  "fst (then_do (Err ''400'') (\<lambda>r. call_getValueOrDefault r 10)
      (empty_world () :: (nat, string, unit) world)) = Inr 10"
  by (simp_all add: getValueOrDefault_fresh returns_def)

text \<open>\<^verbatim>\<open>Err('').getValueOrCompute(e => e.length)\<close> is 0, the length of the error.\<close>

lemma scenario_getValueOrCompute:
  "fst (then_do (Err []) (\<lambda>r. call_getValueOrCompute r (\<lambda>e. returns (length e)))
      (empty_world () :: (nat, string, unit) world)) = Inr 0"
  by (simp add: getValueOrCompute_fresh returns_def)

text \<open>
  \<^verbatim>\<open>Err('Error!').mapErr(error => error.length).match(_ => 0, n => n)\<close> is 6. The error
  is a string before and a number after: \<open>'e\<close> is the sum of both.
\<close>

lemma scenario_mapErr:
  "fst (then_do (Err (Inl ''Error!''))
         (\<lambda>r. then_do (call_mapErr r (\<lambda>e. returns (case e of Inl s \<Rightarrow> Inr (length s) | Inr n \<Rightarrow> Inr n)))
           (\<lambda>r'. call_match r' (\<lambda>v::nat. returns 0)
                    (\<lambda>e. returns (case e of Inl s \<Rightarrow> 0 | Inr n \<Rightarrow> n))))
         (empty_world () :: (nat, string + nat, unit) world)) = Inr 6"
  by (simp add: then_do_def Err_def alloc_def call_mapErr_def call_match_def method_call_def
      lookup_def returns_def empty_world_def nth_append)

text \<open>
  \<^verbatim>\<open>Err("x").and(Ok(1))\<close> is the Failure holding \<^verbatim>\<open>"x"\<close>, and \<^verbatim>\<open>Ok(1).and(Ok(2))\<close> is
  the Success holding 2.
\<close>

lemma scenario_and:
  "outcome (then_do (Err ''x'') (\<lambda>r. then_do (Ok (1::nat)) (\<lambda>q. call_and r q)))
     (empty_world ()) = Inr (Inr (Inr ''x''), Inr False, Inr True)"
  "outcome (then_do (Ok (1::nat)) (\<lambda>r. then_do (Ok 2) (\<lambda>q. call_and r q)))
     (empty_world () :: (nat, string, unit) world) = Inr (Inr (Inl 2), Inr True, Inr False)"
  by (simp_all add: outcome_def observe_lookup then_do_def Ok_def Err_def alloc_def call_and_def
      method_call_def lookup_def returns_def empty_world_def nth_append)

end
